theory Spec2Isabelle
  imports Main "HOL-Library.Sublist"
begin

section \<open>The Qt4 input hook (IPython/lib/inputhookqt4.py)\<close>

subsection \<open>Objects, exceptions and the observable world\<close>

text \<open>
  Python objects that the hook only compares by identity are numbered: Qt applications,
  input hook managers, and the one-element list \<open>got_kbdint\<close> that a pair of closures
  shares. A closure is its code together with what it captured, so the idle callback
  created by one run of \<open>create_inputhook_qt4\<close> is \<open>Inputhook_qt4 mgr cell\<close> and its
  companion is \<open>Preprompthook_qt4 mgr cell\<close>; every run that creates a pair allocates a
  new cell, hence a new closure.
\<close>

type_synonym app = nat
type_synonym mgr = nat
type_synonym cell = nat

datatype exn = KeyboardInterrupt | OtherException string

datatype hook = Inputhook_qt4 mgr cell

datatype prehook = Preprompthook_qt4 mgr cell

datatype qobj = QTimer nat | QSocketNotifier nat

text \<open>Every call the hook makes to a collaborator is written to a log, in order.\<close>

datatype call =
    Call_allow_CTRL_C
  | Call_ignore_CTRL_C
  | Call_clear_inputhook mgr
  | Call_set_inputhook mgr hook
  | Call_print string
  | Call_print_exc exn
  | Call_instance
  | Call_processEvents app nat
  | Call_stdin_ready
  | Call_QTimer
  | Call_QSocketNotifier nat
  | Call_connect qobj app
  | Call_disconnect qobj app
  | Call_start qobj nat
  | Call_stop qobj
  | Call_exec app

datatype logged = Did call | Threw call exn

record world =
  sigint_allowed :: bool
  qapp_instance :: "app option"
  apps_constructed :: "app list"
  next_app :: app
  flags :: "cell \<Rightarrow> bool"
  next_cell :: cell
  pyos_inputhook :: "mgr \<Rightarrow> hook option"
  ip_inputhook_qt4 :: "hook option"
  pre_prompt_hooks :: "prehook list"
  quit_connections :: "(qobj \<times> app) set"
  next_qobj :: nat
  calls :: "logged list"
  clock :: nat

text \<open>
  The fields: whether SIGINT raises \<open>KeyboardInterrupt\<close> or is ignored; what
  \<open>QCoreApplication.instance()\<close> returns; the applications constructed so far; the store
  of \<open>got_kbdint\<close> cells (\<open>flags w c\<close> is \<open>got_kbdint[0]\<close> of cell \<open>c\<close>); the hook each
  manager has registered with the interpreter; the attribute \<open>_inputhook_qt4\<close> of the
  shell \<open>InteractiveShell.instance()\<close> (\<open>None\<close> when \<open>hasattr\<close> is false) and the
  callbacks it runs before each prompt; the signals connected to an application's
  \<open>quit\<close>; the log; and the number of calls into Qt and \<open>stdin_ready\<close> made so far.
\<close>

text \<open>
  What the surroundings do is an oracle, fixed before the hook runs: the platform
  string, and for the \<open>n\<close>-th call into Qt or \<open>stdin_ready\<close> whether it raises (an
  interrupt delivered during the call, or any other exception) and, for
  \<open>stdin_ready\<close>, its answer.
\<close>

record env =
  sys_platform :: string
  raises :: "nat \<Rightarrow> exn option"
  ready :: "nat \<Rightarrow> bool"

subsection \<open>Collaborators of the shell\<close>

text \<open>
  Modelled from the spec: \<open>allow_CTRL_C\<close> and \<open>ignore_CTRL_C\<close> of
  \<open>IPython.lib.inputhook\<close> are not among the sources. The spec names them as the
  pair of primitives that allow and suppress the interrupt signal.
\<close>

definition allow_CTRL_C :: "world \<Rightarrow> world" where
  "allow_CTRL_C w = w\<lparr>sigint_allowed := True, calls := calls w @ [Did Call_allow_CTRL_C]\<rparr>"

definition ignore_CTRL_C :: "world \<Rightarrow> world" where
  "ignore_CTRL_C w = w\<lparr>sigint_allowed := False, calls := calls w @ [Did Call_ignore_CTRL_C]\<rparr>"

text \<open>
  Modelled from the spec: the methods \<open>clear_inputhook\<close> and \<open>set_inputhook\<close> of the
  \<open>InputHookManager\<close> are not among the sources. The spec names them as the operation
  that clears the current hook and the one that registers a callback as the active hook.
\<close>

definition clear_inputhook :: "mgr \<Rightarrow> world \<Rightarrow> world" where
  "clear_inputhook m w =
     w\<lparr>pyos_inputhook := (pyos_inputhook w)(m := None),
       calls := calls w @ [Did (Call_clear_inputhook m)]\<rparr>"

definition set_inputhook :: "mgr \<Rightarrow> hook \<Rightarrow> world \<Rightarrow> world" where
  "set_inputhook m h w =
     w\<lparr>pyos_inputhook := (pyos_inputhook w)(m := Some h),
       calls := calls w @ [Did (Call_set_inputhook m h)]\<rparr>"

text \<open>
  Modelled from the spec: \<open>set_hook\<close> of the shell is not among the sources. The spec
  has it register a callback; \<open>pre_prompt_hook\<close> callbacks run immediately before every
  prompt is displayed.
\<close>

definition set_hook_pre_prompt :: "prehook \<Rightarrow> world \<Rightarrow> world" where
  "set_hook_pre_prompt p w = w\<lparr>pre_prompt_hooks := pre_prompt_hooks w @ [p]\<rparr>"

text \<open>
  \<open>print\<close> and \<open>traceback.print_exc\<close> write to the log. Like the primitives above,
  they are not among the calls that the oracle lets raise: the exceptions of the model
  come from Qt and from \<open>stdin_ready\<close>, inside the \<open>try\<close> block.
\<close>

definition print :: "string \<Rightarrow> world \<Rightarrow> world" where
  "print s w = w\<lparr>calls := calls w @ [Did (Call_print s)]\<rparr>"

definition print_exc :: "exn \<Rightarrow> world \<Rightarrow> world" where
  "print_exc e w = w\<lparr>calls := calls w @ [Did (Call_print_exc e)]\<rparr>"

subsection \<open>Calls that may raise\<close>

text \<open>
  A computation of the \<open>try\<close> block returns a value or raises, in a new world; \<open>None\<close>
  stands for a loop that has not ended within its fuel.
\<close>

type_synonym 'a comp = "world \<Rightarrow> ((exn + 'a) \<times> world) option"

definition ret :: "'a \<Rightarrow> 'a comp" where
  "ret x w = Some (Inr x, w)"

definition lift :: "(world \<Rightarrow> world) \<Rightarrow> unit comp" where
  "lift f w = Some (Inr (), f w)"

definition andthen :: "'a comp \<Rightarrow> ('a \<Rightarrow> 'b comp) \<Rightarrow> 'b comp" where
  "andthen m f w =
     (case m w of
        None \<Rightarrow> None
      | Some (Inl e, w') \<Rightarrow> Some (Inl e, w')
      | Some (Inr x, w') \<Rightarrow> f x w')"

text \<open>
  A call into Qt, or to \<open>stdin_ready\<close>: the oracle decides whether it raises. A call
  that raises has no effect of its own.
\<close>

definition qt_call :: "env \<Rightarrow> call \<Rightarrow> (world \<Rightarrow> world) \<Rightarrow> unit comp" where
  "qt_call E c eff w =
     (case raises E (clock w) of
        Some e \<Rightarrow> Some (Inl e, w\<lparr>calls := calls w @ [Threw c e], clock := Suc (clock w)\<rparr>)
      | None \<Rightarrow> Some (Inr (), (eff w)\<lparr>calls := calls w @ [Did c], clock := Suc (clock w)\<rparr>))"

definition instance_call :: "env \<Rightarrow> (app option) comp" where
  "instance_call E w = andthen (qt_call E Call_instance id) (\<lambda>_. ret (qapp_instance w)) w"

definition processEvents :: "env \<Rightarrow> app \<Rightarrow> nat \<Rightarrow> unit comp" where
  "processEvents E a maxtime = qt_call E (Call_processEvents a maxtime) id"

definition stdin_ready :: "env \<Rightarrow> bool comp" where
  "stdin_ready E w = andthen (qt_call E Call_stdin_ready id) (\<lambda>_. ret (ready E (clock w))) w"

definition QTimer_new :: "env \<Rightarrow> qobj comp" where
  "QTimer_new E w =
     andthen (qt_call E Call_QTimer (\<lambda>w. w\<lparr>next_qobj := Suc (next_qobj w)\<rparr>))
       (\<lambda>_. ret (QTimer (next_qobj w))) w"

definition QSocketNotifier_new :: "env \<Rightarrow> nat \<Rightarrow> qobj comp" where
  "QSocketNotifier_new E fd w =
     andthen (qt_call E (Call_QSocketNotifier fd) (\<lambda>w. w\<lparr>next_qobj := Suc (next_qobj w)\<rparr>))
       (\<lambda>_. ret (QSocketNotifier (next_qobj w))) w"

definition connect :: "env \<Rightarrow> qobj \<Rightarrow> app \<Rightarrow> unit comp" where
  "connect E q a =
     qt_call E (Call_connect q a)
       (\<lambda>w. w\<lparr>quit_connections := insert (q, a) (quit_connections w)\<rparr>)"

definition disconnect :: "env \<Rightarrow> qobj \<Rightarrow> app \<Rightarrow> unit comp" where
  "disconnect E q a =
     qt_call E (Call_disconnect q a)
       (\<lambda>w. w\<lparr>quit_connections := quit_connections w - {(q, a)}\<rparr>)"

definition timer_start :: "env \<Rightarrow> qobj \<Rightarrow> nat \<Rightarrow> unit comp" where
  "timer_start E q ms = qt_call E (Call_start q ms) id"

definition timer_stop :: "env \<Rightarrow> qobj \<Rightarrow> unit comp" where
  "timer_stop E q = qt_call E (Call_stop q) id"

definition app_exec :: "env \<Rightarrow> app \<Rightarrow> unit comp" where
  "app_exec E a = qt_call E (Call_exec a) id"

subsection \<open>The idle callback\<close>

text \<open>
  The polling loop of the win32 branch,
  \<^verbatim>\<open>while not stdin_ready(): timer.start(50); app.exec_(); timer.stop()\<close>,
  one unit of fuel for each test of the condition.
\<close>

fun timer_loop :: "nat \<Rightarrow> env \<Rightarrow> qobj \<Rightarrow> app \<Rightarrow> unit comp" where
  "timer_loop 0 E timer a w = None"
| "timer_loop (Suc n) E timer a w =
     andthen (stdin_ready E) (\<lambda>rdy.
       if \<not> rdy then
         andthen (timer_start E timer 50) (\<lambda>_.
         andthen (app_exec E a) (\<lambda>_.
         andthen (timer_stop E timer) (\<lambda>_ w'.
         timer_loop n E timer a w')))
       else ret ()) w"

text \<open>
  The body of the \<open>try\<close> statement. Its value is \<open>Some 0\<close> when \<open>return 0\<close> was
  executed inside the block and \<open>None\<close> when control reached the end of the block.
\<close>

definition try_body :: "nat \<Rightarrow> env \<Rightarrow> (int option) comp" where
  "try_body fuel E =
     andthen (lift allow_CTRL_C) (\<lambda>_.
     andthen (instance_call E) (\<lambda>app.
       case app of
         None \<Rightarrow> ret (Some 0)
       | Some a \<Rightarrow>
           andthen (processEvents E a 300) (\<lambda>_.
           andthen (stdin_ready E) (\<lambda>rdy.
             if \<not> rdy then
               (if sys_platform E = ''win32'' then
                  andthen (QTimer_new E) (\<lambda>timer.
                  andthen (connect E timer a) (\<lambda>_.
                  andthen (timer_loop fuel E timer a) (\<lambda>_.
                  andthen (disconnect E timer a) (\<lambda>_.
                  ret None))))
                else
                  andthen (QSocketNotifier_new E 0) (\<lambda>notifier.
                  andthen (connect E notifier a) (\<lambda>_.
                  andthen (app_exec E a) (\<lambda>_.
                  andthen (disconnect E notifier a) (\<lambda>_.
                  ret None)))))
             else ret None))))"

definition kbdint_notice :: string where
  "kbdint_notice = CHR 0x0A # ''KeyboardInterrupt - Ctrl-C again for new prompt''"

definition unregistering_notice :: string where
  "unregistering_notice = ''Got exception from inputhook_qt4, unregistering.''"

definition set_got_kbdint :: "cell \<Rightarrow> bool \<Rightarrow> world \<Rightarrow> world" where
  "set_got_kbdint c b w = w\<lparr>flags := (flags w)(c := b)\<rparr>"

text \<open>
  The two \<open>except\<close> clauses, in the order of the source: the first matches
  \<open>KeyboardInterrupt\<close>, the bare one everything else.
\<close>

fun except_clauses :: "mgr \<Rightarrow> cell \<Rightarrow> exn \<Rightarrow> world \<Rightarrow> world" where
  "except_clauses m got_kbdint KeyboardInterrupt w =
     clear_inputhook m (print kbdint_notice (set_got_kbdint got_kbdint True (ignore_CTRL_C w)))"
| "except_clauses m got_kbdint e w =
     clear_inputhook m (print unregistering_notice (print_exc e (ignore_CTRL_C w)))"

text \<open>
  \<open>inputhook_qt4\<close>: the \<open>try\<close> block, the matching \<open>except\<close> clause if it raised, the
  \<open>finally\<close> clause, and the status returned: the one of a \<open>return\<close> inside the block,
  or that of the last line. The result is \<open>Inl\<close> for an exception that leaves the
  callback.
\<close>

definition inputhook_qt4 :: "nat \<Rightarrow> env \<Rightarrow> mgr \<Rightarrow> cell \<Rightarrow> world \<Rightarrow> ((exn + int) \<times> world) option" where
  "inputhook_qt4 fuel E m got_kbdint w =
     (case try_body fuel E w of
        None \<Rightarrow> None
      | Some (Inl e, w1) \<Rightarrow> Some (Inr 0, allow_CTRL_C (except_clauses m got_kbdint e w1))
      | Some (Inr (Some status), w1) \<Rightarrow> Some (Inr status, allow_CTRL_C w1)
      | Some (Inr None, w1) \<Rightarrow> Some (Inr 0, allow_CTRL_C w1))"

subsection \<open>The restoration callback\<close>

definition preprompthook_qt4 :: "mgr \<Rightarrow> cell \<Rightarrow> world \<Rightarrow> world" where
  "preprompthook_qt4 m got_kbdint w =
     set_got_kbdint got_kbdint False
       (if flags w got_kbdint then set_inputhook m (Inputhook_qt4 m got_kbdint) w else w)"

subsection \<open>Installing the pair of hooks\<close>

text \<open>
  \<open>QtGui.QApplication([" "])\<close>: Qt makes the application it constructs the one that
  \<open>QCoreApplication.instance()\<close> returns.
\<close>

definition QApplication :: "world \<Rightarrow> app \<times> world" where
  "QApplication w =
     (next_app w,
      w\<lparr>qapp_instance := Some (next_app w),
        apps_constructed := apps_constructed w @ [next_app w],
        next_app := Suc (next_app w)\<rparr>)"

definition resolve_app :: "app option \<Rightarrow> world \<Rightarrow> app \<times> world" where
  "resolve_app app w =
     (case app of
        Some a \<Rightarrow> (a, w)
      | None \<Rightarrow>
          (case qapp_instance w of
             Some a \<Rightarrow> (a, w)
           | None \<Rightarrow> QApplication w))"

definition create_inputhook_qt4 :: "mgr \<Rightarrow> app option \<Rightarrow> world \<Rightarrow> (app \<times> hook) \<times> world" where
  "create_inputhook_qt4 m app w =
     (let (a, w1) = resolve_app app w in
      case ip_inputhook_qt4 w1 of
        Some h \<Rightarrow> ((a, h), w1)
      | None \<Rightarrow>
          (let got_kbdint = next_cell w1;
               w2 = w1\<lparr>flags := (flags w1)(got_kbdint := False), next_cell := Suc got_kbdint\<rparr>;
               w3 = w2\<lparr>ip_inputhook_qt4 := Some (Inputhook_qt4 m got_kbdint)\<rparr>;
               w4 = set_hook_pre_prompt (Preprompthook_qt4 m got_kbdint) w3
           in ((a, Inputhook_qt4 m got_kbdint), w4)))"

subsection \<open>The shell and the interpreter around the hooks\<close>

text \<open>
  What the hosting shell and the interpreter do with the callbacks, one event at a time:
  \<^item> \<open>Install m app\<close>: a call of \<open>create_inputhook_qt4\<close>;
  \<^item> \<open>Register m\<close>: the caller registers the idle callback it got back with manager \<open>m\<close>;
  \<^item> \<open>Idle m fuel E\<close>: the interpreter, waiting for input, calls the hook that manager
    \<open>m\<close> has registered, if there is one;
  \<^item> \<open>Prompt\<close>: the shell runs its \<open>pre_prompt_hook\<close> callbacks and displays a prompt;
  \<^item> \<open>Clear m\<close>: somebody clears the hook of manager \<open>m\<close>;
  \<^item> \<open>App_destroyed\<close>: the Qt application goes away (the idle callback provides for
    it: \<open>if not app\<close>), so that \<open>QCoreApplication.instance()\<close> is \<open>None\<close> again;
  \<^item> \<open>App_constructed\<close>: other code constructs a Qt application.

  Modelled from the spec: the shell and the manager are not among the sources. The spec
  has the idle callback invoked by the host whenever it is idle, the restoration callback
  immediately before each prompt, and the hook returned by install registered by its
  caller.
\<close>

datatype event =
    Install mgr "app option"
  | Register mgr
  | Idle mgr nat env
  | Prompt
  | Clear mgr
  | App_destroyed
  | App_constructed

datatype obs = Interrupt_caught | Prompt_displayed | Other_step

definition interrupted :: "nat \<Rightarrow> env \<Rightarrow> world \<Rightarrow> bool" where
  "interrupted fuel E w =
     (case try_body fuel E w of
        Some (Inl KeyboardInterrupt, w1) \<Rightarrow> True
      | _ \<Rightarrow> False)"

fun run_prehooks :: "prehook list \<Rightarrow> world \<Rightarrow> world" where
  "run_prehooks [] w = w"
| "run_prehooks (Preprompthook_qt4 m c # ps) w = run_prehooks ps (preprompthook_qt4 m c w)"

fun step :: "event \<Rightarrow> world \<Rightarrow> (obs \<times> world) option" where
  "step (Install m app) w = Some (Other_step, snd (create_inputhook_qt4 m app w))"
| "step (Register m) w =
     Some (Other_step, case ip_inputhook_qt4 w of None \<Rightarrow> w | Some h \<Rightarrow> set_inputhook m h w)"
| "step (Idle m fuel E) w =
     (case pyos_inputhook w m of
        None \<Rightarrow> Some (Other_step, w)
      | Some (Inputhook_qt4 m' c) \<Rightarrow>
          (case inputhook_qt4 fuel E m' c w of
             None \<Rightarrow> None
           | Some (r, w') \<Rightarrow>
               Some (if interrupted fuel E w then Interrupt_caught else Other_step, w')))"
| "step Prompt w = Some (Prompt_displayed, run_prehooks (pre_prompt_hooks w) w)"
| "step (Clear m) w = Some (Other_step, clear_inputhook m w)"
| "step App_destroyed w = Some (Other_step, w\<lparr>qapp_instance := None\<rparr>)"
| "step App_constructed w = Some (Other_step, snd (QApplication w))"

text \<open>The events that change what \<open>QCoreApplication.instance()\<close> returns on their own.\<close>

fun changes_instance :: "event \<Rightarrow> bool" where
  "changes_instance App_destroyed = True"
| "changes_instance App_constructed = True"
| "changes_instance e = False"

text \<open>
  A run of the system keeps a journal of what was observed, the most recent observation
  first.
\<close>

fun run :: "event list \<Rightarrow> obs list \<times> world \<Rightarrow> (obs list \<times> world) option" where
  "run [] s = Some s"
| "run (e # es) (journal, w) =
     (case step e w of
        None \<Rightarrow> None
      | Some (ob, w') \<Rightarrow> run es (ob # journal, w'))"

text \<open>
  The interval of the spec: an interrupt has been caught and no prompt has been
  displayed since.
\<close>

definition in_interval :: "obs list \<Rightarrow> bool" where
  "in_interval journal \<longleftrightarrow>
     Interrupt_caught \<in> set (takeWhile (\<lambda>ob. ob \<noteq> Prompt_displayed) journal)"

definition initial :: "world \<Rightarrow> bool" where
  "initial w \<longleftrightarrow>
     ip_inputhook_qt4 w = None \<and> pre_prompt_hooks w = [] \<and> pyos_inputhook w = (\<lambda>_. None)"

subsection \<open>Concrete worlds and surroundings\<close>

definition world0 :: world where
  "world0 =
     \<lparr>sigint_allowed = False, qapp_instance = Some 0, apps_constructed = [], next_app = 1,
      flags = (\<lambda>_. False), next_cell = 0, pyos_inputhook = (\<lambda>_. None),
      ip_inputhook_qt4 = None, pre_prompt_hooks = [], quit_connections = {}, next_qobj = 0,
      calls = [], clock = 0\<rparr>"

definition world_no_app :: world where
  "world_no_app = world0\<lparr>qapp_instance := None, next_app := 0\<rparr>"

text \<open>A world in which the flag of cell 0 is set.\<close>

definition world_pending :: world where
  "world_pending = world0\<lparr>flags := (\<lambda>c. c = 0)\<rparr>"

text \<open>On Linux, \<open>processEvents\<close> (the second call) raises a \<open>RuntimeError\<close>.\<close>

definition env_processEvents_fails :: env where
  "env_processEvents_fails =
     \<lparr>sys_platform = ''linux'',
      raises = (\<lambda>n. if n = 1 then Some (OtherException ''RuntimeError'') else None),
      ready = (\<lambda>_. False)\<rparr>"

text \<open>
  On Linux, input is not ready and the interrupt arrives while \<open>app.exec_()\<close> (the sixth
  call) runs the event loop.
\<close>

definition env_interrupt_in_exec :: env where
  "env_interrupt_in_exec =
     \<lparr>sys_platform = ''linux'',
      raises = (\<lambda>n. if n = 5 then Some KeyboardInterrupt else None),
      ready = (\<lambda>_. False)\<rparr>"

text \<open>On Windows, nothing raises and input is ready from the eighth call on.\<close>

definition env_win32_ready_later :: env where
  "env_win32_ready_later =
     \<lparr>sys_platform = ''win32'', raises = (\<lambda>_. None), ready = (\<lambda>n. 7 \<le> n)\<rparr>"

section \<open>The 2to3 import hook (ipython3.py)\<close>

subsection \<open>The cache of refactored sources\<close>

text \<open>
  The file system as \<open>_load_cached_2to3\<close> sees it. A path resolves to a node, or
  resolving it fails: with \<open>FileNotFoundError\<close> where there is nothing, with
  \<open>NotADirectoryError\<close> where a component of the path is not a directory, with
  \<open>PermissionError\<close> where a directory on the way may not be searched. A node is a
  regular file with its bytes, a regular file that may not be read, or a directory; each
  has a stat result. \<open>st_mtime\<close> is a Python float; only its order is used, so any
  linear order stands for it.
\<close>

type_synonym path = string











subsection \<open>The path hook\<close>

datatype import_error = ImportError string path

text \<open>
  \<open>Auto2to3FileFinder.predicated_path_hook(predicate, *loader_details)\<close> returns a
  closure over the class, the predicate and the loader details. The closure asks the file
  system whether its argument is a directory (\<open>os.path.isdir\<close>, which never raises), then
  the predicate, and then constructs \<open>cls(path, *loader_details)\<close>. The class is a
  parameter: any constructor taking the path and the details.
\<close>

definition predicated_path_hook ::
  "(path \<Rightarrow> 'd \<Rightarrow> 'f) \<Rightarrow> (path \<Rightarrow> bool) \<Rightarrow> 'd \<Rightarrow> (path \<Rightarrow> bool) \<Rightarrow> path \<Rightarrow> import_error + 'f" where
  "predicated_path_hook cls predicate loader_details isdir path =
     (if \<not> isdir path then Inl (ImportError ''only directories are supported'' path)
      else if \<not> predicate path then Inl (ImportError ''predicate not satisfied'' path)
      else Inr (cls path loader_details))"

text \<open>
  The class itself: \<open>__init__(self, path, refactoring_tool)\<close> keeps the path and hands
  the tool to the loader. Its debug message is not tracked.
\<close>

record 'tool finder =
  finder_path :: path
  refactoring_tool :: 'tool

definition Auto2to3FileFinder :: "path \<Rightarrow> 'tool \<Rightarrow> 'tool finder" where
  "Auto2to3FileFinder path tool = \<lparr>finder_path = path, refactoring_tool = tool\<rparr>"

text \<open>
  The predicate that the script installs: the directory of the script and everything
  below it. \<open>os.path.abspath\<close> is a parameter and the separator is that of POSIX.
\<close>

definition predicate :: "path \<Rightarrow> (path \<Rightarrow> path) \<Rightarrow> path \<Rightarrow> bool" where
  "predicate this_dir abspath path =
     (abspath path = this_dir \<or> prefix (this_dir @ ''/'') (abspath path))"

subsection \<open>A concrete file system\<close>


text \<open>The directory \<open>/src/ipython\<close> with a subdirectory, and \<open>/usr/lib\<close>.\<close>

definition isdir_example :: "path \<Rightarrow> bool" where
  "isdir_example p \<longleftrightarrow> p = ''/src/ipython'' \<or> p = ''/src/ipython/IPython'' \<or> p = ''/usr/lib''"

section \<open>Notions used in the proofs\<close>

text \<open>\<open>keeps R m\<close>: whenever \<open>m\<close> ends, the worlds before and after are related by \<open>R\<close>.\<close>

definition keeps :: "(world \<Rightarrow> world \<Rightarrow> bool) \<Rightarrow> 'a comp \<Rightarrow> bool" where
  "keeps R m \<longleftrightarrow> (\<forall>w r w'. m w = Some (r, w') \<longrightarrow> R w w')"

text \<open>What no call into Qt touches.\<close>

definition same_session :: "world \<Rightarrow> world \<Rightarrow> bool" where
  "same_session w w' \<longleftrightarrow>
     flags w' = flags w \<and> next_cell w' = next_cell w \<and>
     ip_inputhook_qt4 w' = ip_inputhook_qt4 w \<and> pre_prompt_hooks w' = pre_prompt_hooks w \<and>
     pyos_inputhook w' = pyos_inputhook w \<and> qapp_instance w' = qapp_instance w \<and>
     apps_constructed w' = apps_constructed w \<and> next_app w' = next_app w \<and>
     clock w \<le> clock w'"

text \<open>\<open>raise_logged m\<close>: when \<open>m\<close> raises, the log ends with the call that raised.\<close>

definition raise_logged :: "'a comp \<Rightarrow> bool" where
  "raise_logged m \<longleftrightarrow>
     (\<forall>w e w'. m w = Some (Inl e, w') \<longrightarrow> (\<exists>q ys. calls w' = ys @ [Threw q e]))"

text \<open>\<open>yields P m\<close>: every value \<open>m\<close> returns satisfies \<open>P\<close>.\<close>

definition yields :: "('a \<Rightarrow> bool) \<Rightarrow> 'a comp \<Rightarrow> bool" where
  "yields P m \<longleftrightarrow> (\<forall>w v w'. m w = Some (Inr v, w') \<longrightarrow> P v)"

text \<open>The signals that a stretch of the log connected to an application's \<open>quit\<close>.\<close>

definition wired :: "logged list \<Rightarrow> (qobj \<times> app) set" where
  "wired xs = {(q, a). Did (Call_connect q a) \<in> set xs}"

text \<open>\<open>installed h w\<close>: the shell carries \<open>h\<close> in its attribute \<open>_inputhook_qt4\<close>.\<close>

definition installed :: "hook \<Rightarrow> world \<Rightarrow> bool" where
  "installed h w \<longleftrightarrow> ip_inputhook_qt4 w = Some h"

text \<open>
  What holds of every world the system reaches, \<open>b\<close> being whether the journal is in the
  interval: before install there is no callback anywhere; after it the shell runs exactly
  the companion of the installed hook before a prompt, the flag of its cell is \<open>b\<close>, and
  no manager has any other hook registered.
\<close>

definition consistent :: "bool \<Rightarrow> world \<Rightarrow> bool" where
  "consistent b w \<longleftrightarrow>
     (case ip_inputhook_qt4 w of
        None \<Rightarrow> pre_prompt_hooks w = [] \<and> \<not> b \<and> pyos_inputhook w = (\<lambda>_. None)
      | Some (Inputhook_qt4 m c) \<Rightarrow>
          pre_prompt_hooks w = [Preprompthook_qt4 m c] \<and> flags w c = b \<and>
          (\<forall>m' h. pyos_inputhook w m' = Some h \<longrightarrow> h = Inputhook_qt4 m c))"

section \<open>Properties of the input hook\<close>

subsection \<open>Reasoning about computations\<close>

lemma andthen_SomeD:
  "andthen m f w = Some (r, w') \<Longrightarrow>
     (\<exists>e. m w = Some (Inl e, w') \<and> r = Inl e) \<or> (\<exists>x w1. m w = Some (Inr x, w1) \<and> f x w1 = Some (r, w'))"
  by (auto simp: andthen_def split: option.splits sum.splits prod.splits)

lemma keepsD: "keeps R m \<Longrightarrow> m w = Some (r, w') \<Longrightarrow> R w w'"
  by (auto simp: keeps_def)

lemma keeps_ret: "reflp R \<Longrightarrow> keeps R (ret x)"
  by (auto simp: keeps_def ret_def reflp_def)

lemma keeps_andthen:
  assumes "transp R" "keeps R m" "\<And>x. keeps R (f x)"
  shows "keeps R (andthen m f)"
  unfolding keeps_def
proof (intro allI impI)
  fix w r w' assume "andthen m f w = Some (r, w')"
  from andthen_SomeD[OF this] show "R w w'"
  proof (elim disjE exE conjE)
    fix e assume "m w = Some (Inl e, w')"
    with assms(2) show ?thesis by (auto simp: keeps_def)
  next
    fix x w1 assume "m w = Some (Inr x, w1)" "f x w1 = Some (r, w')"
    with assms(2,3) have "R w w1" "R w1 w'" by (auto simp: keeps_def)
    with assms(1) show ?thesis by (auto dest: transpD)
  qed
qed

lemma keeps_if: "keeps R m \<Longrightarrow> keeps R n \<Longrightarrow> keeps R (if b then m else n)"
  by simp

lemma keeps_qt_call:
  assumes "\<And>w k n. R w (w\<lparr>calls := k, clock := Suc (clock w)\<rparr>)"
    and "\<And>w k n. R w ((eff w)\<lparr>calls := k, clock := Suc (clock w)\<rparr>)"
  shows "keeps R (qt_call E c eff)"
  unfolding keeps_def qt_call_def using assms
  by (auto split: option.splits)

lemma same_session_refl: "reflp same_session"
  by (simp add: reflp_def same_session_def)

lemma same_session_trans: "transp same_session"
  by (auto simp: transp_def same_session_def)

lemma keeps_stdin_ready:
  assumes "\<And>w k. R w (w\<lparr>calls := k, clock := Suc (clock w)\<rparr>)"
  shows "keeps R (stdin_ready E)"
  unfolding keeps_def stdin_ready_def andthen_def qt_call_def ret_def using assms
  by (auto split: option.splits)

lemma keeps_timer_loop:
  assumes "reflp R" "transp R" "\<And>w k. R w (w\<lparr>calls := k, clock := Suc (clock w)\<rparr>)"
  shows "keeps R (timer_loop n E t a)"
proof (induction n)
  case 0 show ?case by (simp add: keeps_def)
next
  case (Suc n)
  have eq: "timer_loop (Suc n) E t a = andthen (stdin_ready E) (\<lambda>rdy.
       if \<not> rdy then
         andthen (timer_start E t 50) (\<lambda>_.
         andthen (app_exec E a) (\<lambda>_.
         andthen (timer_stop E t) (\<lambda>_. timer_loop n E t a)))
       else ret ())" by (rule ext) simp
  have q: "\<And>c. keeps R (qt_call E c id)"
    by (rule keeps_qt_call) (simp_all add: assms(3))
  show ?case unfolding eq timer_start_def app_exec_def timer_stop_def
    by (intro keeps_andthen keeps_if keeps_ret keeps_stdin_ready assms q Suc)
qed


lemma keeps_case_option:
  "keeps R m \<Longrightarrow> (\<And>x. keeps R (f x)) \<Longrightarrow> keeps R (case v of None \<Rightarrow> m | Some x \<Rightarrow> f x)"
  by (cases v) simp_all

lemma keeps_lift: "(\<And>w. R w (g w)) \<Longrightarrow> keeps R (lift g)"
  by (simp add: keeps_def lift_def)

lemma keeps_valued:
  assumes "\<And>w. keeps R (qt_call E c eff)"
  shows "keeps R (\<lambda>w. andthen (qt_call E c eff) (\<lambda>_. ret (g w)) w)"
  using assms unfolding keeps_def andthen_def ret_def
  by (auto split: option.splits sum.splits prod.splits)

lemmas qt_defs = instance_call_def processEvents_def stdin_ready_def QTimer_new_def
  QSocketNotifier_new_def connect_def disconnect_def timer_start_def timer_stop_def app_exec_def

lemma keeps_session_qt:
  "keeps same_session (instance_call E)"
  "keeps same_session (processEvents E a ms)"
  "keeps same_session (stdin_ready E)"
  "keeps same_session (QTimer_new E)"
  "keeps same_session (QSocketNotifier_new E fd)"
  "keeps same_session (connect E q a)"
  "keeps same_session (disconnect E q a)"
  "keeps same_session (app_exec E a)"
  "keeps same_session (timer_loop n E q a)"
  "keeps same_session (lift allow_CTRL_C)"
  unfolding instance_call_def[abs_def] processEvents_def stdin_ready_def[abs_def] QTimer_new_def[abs_def]
  QSocketNotifier_new_def[abs_def] connect_def disconnect_def app_exec_def
  by (intro keeps_valued keeps_qt_call keeps_timer_loop keeps_lift same_session_refl same_session_trans;
      simp add: same_session_def allow_CTRL_C_def)+

lemma keeps_session_try_body: "keeps same_session (try_body fuel E)"
  unfolding try_body_def
  by (intro keeps_andthen keeps_case_option keeps_if keeps_ret same_session_trans same_session_refl
        keeps_session_qt)

lemma try_body_same_session: "try_body fuel E w = Some (r, w1) \<Longrightarrow> same_session w w1"
  using keeps_session_try_body by (rule keepsD)


lemma qt_call_returns: "qt_call E c eff w \<noteq> None"
  by (simp add: qt_call_def split: option.splits)

lemma timer_loop_returns:
  "\<forall>i\<ge>N. ready E i \<Longrightarrow> N - clock w < fuel \<Longrightarrow> timer_loop fuel E t a w \<noteq> None"
proof (induction fuel arbitrary: w)
  case 0 then show ?case by simp
next
  case (Suc n)
  show ?case
  proof (cases "ready E (clock w)")
    case True
    then show ?thesis
      by (simp add: andthen_def stdin_ready_def qt_call_def ret_def split: option.splits)
  next
    case False
    with Suc.prems(1) have lt: "clock w < N" by (meson not_le)
    have step: "\<exists>r w''. timer_loop n E t a w' = Some (r, w'')"
      if "clock w' = Suc (Suc (Suc (Suc (clock w))))" for w'
      using Suc.IH[of w'] Suc.prems lt that by auto
    show ?thesis using False
      by (auto simp: andthen_def stdin_ready_def timer_start_def app_exec_def timer_stop_def
            qt_call_def ret_def step split: option.splits)
  qed
qed

lemma try_body_returns:
  assumes "sys_platform E \<noteq> ''win32'' \<or> (\<exists>N. (\<forall>i\<ge>N. ready E i) \<and> N - clock w < fuel)"
  shows "try_body fuel E w \<noteq> None"
proof -
  have loop: "timer_loop fuel E t a w' \<noteq> None"
    if "sys_platform E = ''win32''" "clock w \<le> clock w'" for w' t a
  proof -
    from assms that(1) obtain N where N: "\<forall>i\<ge>N. ready E i" "N - clock w < fuel" by auto
    then have "N - clock w' < fuel" using that(2) by simp
    with N(1) show ?thesis by (rule timer_loop_returns)
  qed
  show ?thesis
    unfolding try_body_def
    by (auto simp: andthen_def qt_defs lift_def allow_CTRL_C_def qt_call_def ret_def loop
          split: option.splits sum.splits prod.splits)
qed

lemma raise_logged_andthen:
  "raise_logged m \<Longrightarrow> (\<And>x. raise_logged (f x)) \<Longrightarrow> raise_logged (andthen m f)"
  unfolding raise_logged_def
  by (blast dest!: andthen_SomeD)

lemma raise_logged_ret: "raise_logged (ret x)"
  by (simp add: raise_logged_def ret_def)

lemma raise_logged_lift: "raise_logged (lift g)"
  by (simp add: raise_logged_def lift_def)

lemma raise_logged_qt_call: "raise_logged (qt_call E c eff)"
  by (auto simp: raise_logged_def qt_call_def split: option.splits)

lemma raise_logged_valued:
  "raise_logged (\<lambda>w. andthen (qt_call E c eff) (\<lambda>_. ret (g w)) w)"
  by (auto simp: raise_logged_def qt_call_def andthen_def ret_def split: option.splits)

lemma raise_logged_if: "raise_logged m \<Longrightarrow> raise_logged n \<Longrightarrow> raise_logged (if b then m else n)"
  by simp

lemma raise_logged_case_option:
  "raise_logged m \<Longrightarrow> (\<And>x. raise_logged (f x)) \<Longrightarrow> raise_logged (case v of None \<Rightarrow> m | Some x \<Rightarrow> f x)"
  by (cases v) simp_all

lemma raise_logged_timer_loop: "raise_logged (timer_loop n E t a)"
proof (induction n)
  case 0 show ?case by (simp add: raise_logged_def)
next
  case (Suc n)
  have eq: "timer_loop (Suc n) E t a = andthen (stdin_ready E) (\<lambda>rdy.
       if \<not> rdy then
         andthen (timer_start E t 50) (\<lambda>_.
         andthen (app_exec E a) (\<lambda>_.
         andthen (timer_stop E t) (\<lambda>_. timer_loop n E t a)))
       else ret ())" by (rule ext) simp
  show ?case unfolding eq timer_start_def app_exec_def timer_stop_def stdin_ready_def[abs_def]
    by (intro raise_logged_andthen raise_logged_if raise_logged_ret raise_logged_valued
          raise_logged_qt_call Suc)
qed

lemma raise_logged_try_body: "raise_logged (try_body fuel E)"
  unfolding try_body_def instance_call_def[abs_def] processEvents_def stdin_ready_def[abs_def]
    QTimer_new_def[abs_def] QSocketNotifier_new_def[abs_def] connect_def disconnect_def app_exec_def
  by (intro raise_logged_andthen raise_logged_if raise_logged_ret raise_logged_valued
        raise_logged_qt_call raise_logged_lift raise_logged_case_option raise_logged_timer_loop)

lemma try_body_raise_logged:
  "try_body fuel E w = Some (Inl e, w1) \<Longrightarrow> \<exists>q ys. calls w1 = ys @ [Threw q e]"
  using raise_logged_try_body unfolding raise_logged_def by blast

lemmas prim_defs = allow_CTRL_C_def ignore_CTRL_C_def clear_inputhook_def set_inputhook_def
  print_def print_exc_def set_got_kbdint_def



lemma yields_andthen: "(\<And>x. yields P (f x)) \<Longrightarrow> yields P (andthen m f)"
  unfolding yields_def by (blast dest!: andthen_SomeD)

lemma yields_ret: "P x \<Longrightarrow> yields P (ret x)"
  by (simp add: yields_def ret_def)

lemma yields_if: "yields P m \<Longrightarrow> yields P n \<Longrightarrow> yields P (if b then m else n)"
  by simp

lemma yields_case_option:
  "yields P m \<Longrightarrow> (\<And>x. yields P (f x)) \<Longrightarrow> yields P (case v of None \<Rightarrow> m | Some x \<Rightarrow> f x)"
  by (cases v) simp_all

lemma try_body_status: "try_body fuel E w = Some (Inr (Some status), w1) \<Longrightarrow> status = 0"
proof -
  have "yields (\<lambda>v. v = None \<or> v = Some 0) (try_body fuel E)"
    unfolding try_body_def
    by (intro yields_andthen yields_case_option yields_if yields_ret) simp_all
  then show "try_body fuel E w = Some (Inr (Some status), w1) \<Longrightarrow> status = 0"
    unfolding yields_def by blast
qed

lemma andthen_Inr_iff:
  "andthen m f w = Some (Inr v, w') \<longleftrightarrow> (\<exists>x w1. m w = Some (Inr x, w1) \<and> f x w1 = Some (Inr v, w'))"
  by (auto simp: andthen_def split: option.splits sum.splits prod.splits)

lemma qt_call_Inr_iff:
  "qt_call E c eff w = Some (Inr x, w') \<longleftrightarrow>
     raises E (clock w) = None \<and> w' = (eff w)\<lparr>calls := calls w @ [Did c], clock := Suc (clock w)\<rparr>"
  by (auto simp: qt_call_def split: option.splits)

lemma ret_Inr_iff: "ret x w = Some (Inr v, w') \<longleftrightarrow> v = x \<and> w' = w"
  by (auto simp: ret_def)

lemma lift_Inr_iff: "lift g w = Some (Inr v, w') \<longleftrightarrow> w' = g w"
  by (auto simp: lift_def)

lemmas Inr_iffs = andthen_Inr_iff qt_call_Inr_iff ret_Inr_iff lift_Inr_iff

lemma timer_loop_wiring:
  "timer_loop n E t a w = Some (Inr v, w') \<Longrightarrow>
     quit_connections w' = quit_connections w \<and>
     (\<exists>xs. calls w' = calls w @ xs \<and> wired xs = {})"
proof (induction n arbitrary: w)
  case 0 then show ?case by simp
next
  case (Suc n)
  show ?case
  proof (cases "ready E (clock w)")
    case True
    with Suc.prems show ?thesis
      by (auto simp: Inr_iffs stdin_ready_def wired_def)
  next
    case False
    with Suc.prems obtain w2 where w2: "timer_loop n E t a w2 = Some (Inr v, w')"
      "quit_connections w2 = quit_connections w"
      "calls w2 = calls w @ [Did Call_stdin_ready, Did (Call_start t 50), Did (Call_exec a), Did (Call_stop t)]"
      by (auto simp: Inr_iffs stdin_ready_def timer_start_def app_exec_def timer_stop_def)
    from Suc.IH[OF w2(1)] obtain xs where "quit_connections w' = quit_connections w2"
      "calls w' = calls w2 @ xs" "wired xs = {}" by blast
    with w2(2,3) show ?thesis by (auto simp: wired_def)
  qed
qed

lemma try_body_wiring:
  assumes "try_body fuel E w = Some (Inr v, w1)"
  shows "\<exists>xs. calls w1 = calls w @ xs \<and> quit_connections w1 = quit_connections w - wired xs"
proof (cases "qapp_instance w")
  case None
  with assms show ?thesis
    by (auto simp: try_body_def Inr_iffs instance_call_def allow_CTRL_C_def wired_def)
next
  case (Some a)
  show ?thesis
  proof (cases "ready E (Suc (Suc (clock w)))")
    case True
    with assms Some show ?thesis
      by (auto simp: try_body_def Inr_iffs instance_call_def processEvents_def stdin_ready_def
            allow_CTRL_C_def wired_def)
  next
    case False
    show ?thesis
    proof (cases "sys_platform E = ''win32''")
      case True
      let ?t = "QTimer (next_qobj w)"
      let ?w2 = "w\<lparr>sigint_allowed := True, next_qobj := Suc (next_qobj w),
                  quit_connections := insert (?t, a) (quit_connections w),
                  calls := calls w @ [Did Call_allow_CTRL_C, Did Call_instance,
                     Did (Call_processEvents a 300), Did Call_stdin_ready, Did Call_QTimer,
                     Did (Call_connect ?t a)],
                  clock := Suc (Suc (Suc (Suc (Suc (clock w)))))\<rparr>"
      from assms Some False True obtain w3 where
        loop: "timer_loop fuel E ?t a ?w2 = Some (Inr (), w3)"
        and w1: "w1 = w3\<lparr>quit_connections := quit_connections w3 - {(?t, a)},
                  calls := calls w3 @ [Did (Call_disconnect ?t a)], clock := Suc (clock w3)\<rparr>"
        by (auto simp: try_body_def Inr_iffs instance_call_def processEvents_def stdin_ready_def
              allow_CTRL_C_def QTimer_new_def connect_def disconnect_def)
      from timer_loop_wiring[OF loop] obtain xs where
        "quit_connections w3 = quit_connections ?w2" "calls w3 = calls ?w2 @ xs" "wired xs = {}"
        by blast
      with w1 show ?thesis by (auto simp: wired_def)
    next
      case False
      with assms Some \<open>\<not> ready E (Suc (Suc (clock w)))\<close> show ?thesis
        by (auto simp: try_body_def Inr_iffs instance_call_def processEvents_def stdin_ready_def
              allow_CTRL_C_def QSocketNotifier_new_def connect_def disconnect_def app_exec_def wired_def)
    qed
  qed
qed

subsection \<open>What the callbacks and the events leave alone\<close>

lemma inputhook_qt4_effect:
  assumes "inputhook_qt4 fuel E m c w = Some (r, w')"
  shows "ip_inputhook_qt4 w' = ip_inputhook_qt4 w \<and> pre_prompt_hooks w' = pre_prompt_hooks w \<and>
         qapp_instance w' = qapp_instance w \<and> next_cell w' = next_cell w \<and>
         apps_constructed w' = apps_constructed w \<and>
         flags w' = (if interrupted fuel E w then (flags w)(c := True) else flags w) \<and>
         (\<forall>m' h. pyos_inputhook w' m' = Some h \<longrightarrow> pyos_inputhook w m' = Some h)"
proof (cases "try_body fuel E w")
  case None
  with assms show ?thesis by (simp add: inputhook_qt4_def)
next
  case (Some p)
  obtain r1 w1 where p: "p = (r1, w1)" by (cases p)
  from Some p have "same_session w w1" by (auto intro: try_body_same_session)
  then show ?thesis using assms Some p
    apply (cases r1)
    subgoal for e
      by (cases e) (auto simp: inputhook_qt4_def interrupted_def prim_defs same_session_def
            split: if_splits)
    subgoal for v
      by (cases v) (auto simp: inputhook_qt4_def interrupted_def prim_defs same_session_def)
    done
qed

lemma run_prehooks_effect:
  "ip_inputhook_qt4 (run_prehooks ps w) = ip_inputhook_qt4 w \<and>
   pre_prompt_hooks (run_prehooks ps w) = pre_prompt_hooks w \<and>
   qapp_instance (run_prehooks ps w) = qapp_instance w \<and>
   next_cell (run_prehooks ps w) = next_cell w \<and>
   apps_constructed (run_prehooks ps w) = apps_constructed w"
proof (induction ps arbitrary: w)
  case Nil show ?case by simp
next
  case (Cons p ps)
  show ?case by (cases p) (simp add: Cons.IH preprompthook_qt4_def prim_defs)
qed

lemma create_installed:
  "installed h w \<Longrightarrow> create_inputhook_qt4 m app w = ((a, h'), w') \<Longrightarrow>
     h' = h \<and> installed h w' \<and> next_cell w' = next_cell w \<and> pre_prompt_hooks w' = pre_prompt_hooks w
     \<and> flags w' = flags w \<and> pyos_inputhook w' = pyos_inputhook w"
  by (auto simp: installed_def create_inputhook_qt4_def resolve_app_def QApplication_def Let_def
        split: option.splits prod.splits)

lemma create_qapp:
  "qapp_instance w = Some a0 \<Longrightarrow> create_inputhook_qt4 m app w = (p, w') \<Longrightarrow> qapp_instance w' = Some a0"
  by (auto simp: create_inputhook_qt4_def resolve_app_def QApplication_def Let_def set_hook_pre_prompt_def
        split: option.splits prod.splits)

lemma step_installed:
  assumes "step e w = Some (ob, w')"
  shows "(installed h w \<longrightarrow> installed h w') \<and>
         (\<not> changes_instance e \<longrightarrow> qapp_instance w = Some a0 \<longrightarrow> qapp_instance w' = Some a0)"
proof (cases e)
  case (Install m app)
  obtain p w'' where c: "create_inputhook_qt4 m app w = (p, w'')" by (cases "create_inputhook_qt4 m app w")
  with assms Install have "w' = w''" by simp
  with c create_installed[of h w m app "fst p" "snd p" w''] create_qapp[OF _ c] show ?thesis by auto
next
  case (Register m)
  with assms show ?thesis by (auto simp: installed_def prim_defs split: option.splits)
next
  case (Idle m fuel E)
  with assms show ?thesis
    by (auto simp: installed_def split: option.splits hook.splits dest!: inputhook_qt4_effect)
next
  case Prompt
  with assms show ?thesis by (auto simp: installed_def run_prehooks_effect)
next
  case (Clear m)
  with assms show ?thesis by (auto simp: installed_def prim_defs)
next
  case App_destroyed
  with assms show ?thesis by (auto simp: installed_def)
next
  case App_constructed
  with assms show ?thesis by (auto simp: installed_def QApplication_def)
qed

lemma run_installed:
  "run evs (j, w) = Some (j', w') \<Longrightarrow>
     (installed h w \<longrightarrow> installed h w') \<and>
     ((\<forall>e\<in>set evs. \<not> changes_instance e) \<longrightarrow> qapp_instance w = Some a0 \<longrightarrow>
        qapp_instance w' = Some a0)"
proof (induction evs arbitrary: j w)
  case Nil then show ?case by simp
next
  case (Cons e evs)
  then obtain ob w1 where s: "step e w = Some (ob, w1)" and r: "run evs (ob # j, w1) = Some (j', w')"
    by (auto split: option.splits)
  from step_installed[OF s, of h a0] Cons.IH[OF r] show ?case by simp
qed

lemma create_installs:
  "create_inputhook_qt4 m app w = ((a, h), w') \<Longrightarrow>
     installed h w' \<and> (app = None \<longrightarrow> qapp_instance w' = Some a) \<and> (\<forall>x. app = Some x \<longrightarrow> a = x)"
  by (auto simp: installed_def create_inputhook_qt4_def resolve_app_def QApplication_def Let_def
        set_hook_pre_prompt_def split: option.splits prod.splits)

subsection \<open>The invariant of the system\<close>

lemma in_interval_Cons:
  "in_interval (ob # j) \<longleftrightarrow> ob = Interrupt_caught \<or> (ob \<noteq> Prompt_displayed \<and> in_interval j)"
  by (auto simp: in_interval_def)

lemma step_consistent:
  assumes "step e w = Some (ob, w')" and "consistent b w"
  shows "consistent (ob = Interrupt_caught \<or> (ob \<noteq> Prompt_displayed \<and> b)) w'"
proof (cases e)
  case (Install m app)
  with assms show ?thesis
    by (auto simp: consistent_def create_inputhook_qt4_def resolve_app_def QApplication_def Let_def
          set_hook_pre_prompt_def split: option.splits prod.splits hook.splits if_splits)
next
  case (Register m)
  with assms show ?thesis
    by (auto simp: consistent_def prim_defs split: option.splits hook.splits if_splits)
next
  case (Idle m fuel E)
  show ?thesis
  proof (cases "pyos_inputhook w m")
    case None
    with assms Idle show ?thesis by auto
  next
    case (Some h)
    obtain m' c where h: "h = Inputhook_qt4 m' c" by (cases h)
    from assms(2) Some h have ip: "ip_inputhook_qt4 w = Some (Inputhook_qt4 m' c)"
      by (auto simp: consistent_def split: option.splits hook.splits if_splits)
    from assms(1) Idle Some h obtain r where
      run: "inputhook_qt4 fuel E m' c w = Some (r, w')"
      and ob: "ob = (if interrupted fuel E w then Interrupt_caught else Other_step)"
      by (auto split: option.splits)
    from inputhook_qt4_effect[OF run] have eff: "ip_inputhook_qt4 w' = ip_inputhook_qt4 w"
      "pre_prompt_hooks w' = pre_prompt_hooks w"
      "flags w' = (if interrupted fuel E w then (flags w)(c := True) else flags w)"
      "\<And>m' h. pyos_inputhook w' m' = Some h \<Longrightarrow> pyos_inputhook w m' = Some h"
      by blast+
    from assms(2) ip have inv: "pre_prompt_hooks w = [Preprompthook_qt4 m' c]" "flags w c = b"
      "\<And>m'' h. pyos_inputhook w m'' = Some h \<Longrightarrow> h = Inputhook_qt4 m' c"
      by (auto simp: consistent_def)
    have "\<And>m'' h. pyos_inputhook w' m'' = Some h \<Longrightarrow> h = Inputhook_qt4 m' c"
      using eff(4) inv(3) by blast
    with eff(1-3) inv(1,2) ip ob show ?thesis
      by (auto simp: consistent_def)
  qed
next
  case Prompt
  with assms show ?thesis
    by (auto simp: consistent_def preprompthook_qt4_def prim_defs split: option.splits hook.splits if_splits)
next
  case (Clear m)
  with assms show ?thesis
    by (auto simp: consistent_def prim_defs split: option.splits hook.splits if_splits)
next
  case App_destroyed
  with assms show ?thesis
    by (auto simp: consistent_def split: option.splits hook.splits)
next
  case App_constructed
  with assms show ?thesis
    by (auto simp: consistent_def QApplication_def split: option.splits hook.splits)
qed

lemma run_consistent:
  "run evs (j, w) = Some (j', w') \<Longrightarrow> consistent (in_interval j) w \<Longrightarrow> consistent (in_interval j') w'"
proof (induction evs arbitrary: j w)
  case Nil then show ?case by simp
next
  case (Cons e evs)
  then obtain ob w1 where s: "step e w = Some (ob, w1)" and r: "run evs (ob # j, w1) = Some (j', w')"
    by (auto split: option.splits)
  from step_consistent[OF s Cons.prems(2)] have "consistent (in_interval (ob # j)) w1"
    by (simp add: in_interval_Cons)
  with r show ?case by (rule Cons.IH)
qed

section \<open>The claims\<close>

lemmas run_defs = try_body_def andthen_def lift_def ret_def qt_call_def qt_defs prim_defs
  inputhook_qt4_def

text \<open>
  C1. When the \<open>try\<close> block of the idle callback raises anything other than an interrupt,
  the callback catches it: it suppresses the interrupt signal, prints the traceback and a
  notice, unregisters the hook with the manager's \<open>clear_inputhook\<close>, re-enables the
  signal and returns 0. Nothing propagates: the result is \<open>Inr 0\<close>. The exception comes
  from a call into Qt or \<open>stdin_ready\<close>, the last entry of the log before the handler.
\<close>

theorem inputhook_qt4_contains_exception:
  assumes "try_body fuel E w = Some (Inl e, w1)" and "e \<noteq> KeyboardInterrupt"
  shows "\<exists>w'. inputhook_qt4 fuel E m got_kbdint w = Some (Inr 0, w') \<and>
           (\<exists>q ys. calls w' = ys @ [Threw q e, Did Call_ignore_CTRL_C, Did (Call_print_exc e),
                      Did (Call_print unregistering_notice), Did (Call_clear_inputhook m),
                      Did Call_allow_CTRL_C]) \<and>
           pyos_inputhook w' m = None \<and> flags w' = flags w"
proof -
  from try_body_raise_logged[OF assms(1)] obtain q ys where "calls w1 = ys @ [Threw q e]" by blast
  moreover from try_body_same_session[OF assms(1)] have "flags w1 = flags w"
    by (simp add: same_session_def)
  ultimately show ?thesis using assms
    by (cases e) (simp_all add: inputhook_qt4_def prim_defs)
qed

theorem inputhook_qt4_contains_exception_witness:
  "fst (the (try_body 0 env_processEvents_fails world0)) = Inl (OtherException ''RuntimeError'') \<and>
   OtherException ''RuntimeError'' \<noteq> KeyboardInterrupt \<and>
   (\<exists>w'. inputhook_qt4 0 env_processEvents_fails 3 0 world0 = Some (Inr 0, w') \<and>
      (\<exists>q ys. calls w' = ys @ [Threw q (OtherException ''RuntimeError''), Did Call_ignore_CTRL_C,
                 Did (Call_print_exc (OtherException ''RuntimeError'')),
                 Did (Call_print unregistering_notice), Did (Call_clear_inputhook 3),
                 Did Call_allow_CTRL_C]) \<and>
      pyos_inputhook w' 3 = None \<and> flags w' = flags world0)"
proof -
  have h: "try_body 0 env_processEvents_fails world0 =
      Some (Inl (OtherException ''RuntimeError''),
            snd (the (try_body 0 env_processEvents_fails world0)))"
    by (simp add: run_defs env_processEvents_fails_def world0_def)
  have f: "fst (the (try_body 0 env_processEvents_fails world0)) =
      Inl (OtherException ''RuntimeError'')"
    by (simp add: run_defs env_processEvents_fails_def world0_def)
  have ne: "OtherException ''RuntimeError'' \<noteq> KeyboardInterrupt" by simp
  from inputhook_qt4_contains_exception[OF h ne, of 3 0] f ne show ?thesis by blast
qed

text \<open>
  C2. When an interrupt is raised in the \<open>try\<close> block, the same invocation sets the
  interrupt-pending flag, prints the notice, deactivates the hook with the manager's
  \<open>clear_inputhook\<close>, and returns 0: the interrupt does not leave the callback.
\<close>

theorem inputhook_qt4_catches_interrupt:
  assumes "try_body fuel E w = Some (Inl KeyboardInterrupt, w1)"
  shows "\<exists>w'. inputhook_qt4 fuel E m got_kbdint w = Some (Inr 0, w') \<and>
           flags w' got_kbdint \<and> pyos_inputhook w' m = None \<and>
           (\<exists>q ys. calls w' = ys @ [Threw q KeyboardInterrupt, Did Call_ignore_CTRL_C,
                      Did (Call_print kbdint_notice), Did (Call_clear_inputhook m),
                      Did Call_allow_CTRL_C])"
proof -
  from try_body_raise_logged[OF assms(1)] obtain q ys
    where "calls w1 = ys @ [Threw q KeyboardInterrupt]" by blast
  then show ?thesis using assms
    by (simp add: inputhook_qt4_def prim_defs)
qed

theorem inputhook_qt4_catches_interrupt_witness:
  "fst (the (try_body 0 env_interrupt_in_exec world0)) = Inl KeyboardInterrupt \<and>
   (\<exists>w'. inputhook_qt4 0 env_interrupt_in_exec 3 0 world0 = Some (Inr 0, w') \<and>
      flags w' 0 \<and> pyos_inputhook w' 3 = None \<and>
      (\<exists>q ys. calls w' = ys @ [Threw q KeyboardInterrupt, Did Call_ignore_CTRL_C,
                 Did (Call_print kbdint_notice), Did (Call_clear_inputhook 3),
                 Did Call_allow_CTRL_C]))"
proof -
  have h: "try_body 0 env_interrupt_in_exec world0 =
      Some (Inl KeyboardInterrupt, snd (the (try_body 0 env_interrupt_in_exec world0)))"
    by (simp add: run_defs env_interrupt_in_exec_def world0_def)
  have f: "fst (the (try_body 0 env_interrupt_in_exec world0)) = Inl KeyboardInterrupt"
    by (simp add: run_defs env_interrupt_in_exec_def world0_def)
  from inputhook_qt4_catches_interrupt[OF h, of 3 0] f show ?thesis by blast
qed

text \<open>
  C6. Whatever branch the idle callback takes (no application, normal completion,
  interrupt caught, other exception caught), when it returns the interrupt signal is
  enabled, \<open>allow_CTRL_C\<close> being the last call it made, and the status is 0. It does
  return: always on a platform other than win32, and on win32 as soon as the fuel covers
  the polls made until input is ready for good.
\<close>

theorem inputhook_qt4_reenables_sigint_returns_0:
  "(inputhook_qt4 fuel E m got_kbdint w = None \<or>
    (\<exists>w'. inputhook_qt4 fuel E m got_kbdint w = Some (Inr 0, w') \<and> sigint_allowed w' \<and>
       last (calls w') = Did Call_allow_CTRL_C)) \<and>
   (sys_platform E \<noteq> ''win32'' \<or> (\<exists>N. (\<forall>i\<ge>N. ready E i) \<and> N - clock w < fuel) \<longrightarrow>
      inputhook_qt4 fuel E m got_kbdint w \<noteq> None)"
proof (intro conjI impI)
  show "inputhook_qt4 fuel E m got_kbdint w = None \<or>
    (\<exists>w'. inputhook_qt4 fuel E m got_kbdint w = Some (Inr 0, w') \<and> sigint_allowed w' \<and>
       last (calls w') = Did Call_allow_CTRL_C)"
  proof (cases "try_body fuel E w")
    case None
    then show ?thesis by (simp add: inputhook_qt4_def)
  next
    case (Some p)
    obtain r w1 where p: "p = (r, w1)" by (cases p)
    show ?thesis
    proof (cases r)
      case (Inl e)
      with Some p show ?thesis by (simp add: inputhook_qt4_def allow_CTRL_C_def)
    next
      case (Inr v)
      with Some p try_body_status[of fuel E w _ w1] show ?thesis
        by (cases v) (auto simp: inputhook_qt4_def allow_CTRL_C_def)
    qed
  qed
next
  assume "sys_platform E \<noteq> ''win32'' \<or> (\<exists>N. (\<forall>i\<ge>N. ready E i) \<and> N - clock w < fuel)"
  then have "try_body fuel E w \<noteq> None" by (rule try_body_returns)
  then show "inputhook_qt4 fuel E m got_kbdint w \<noteq> None"
    by (auto simp: inputhook_qt4_def split: option.splits sum.splits)
qed

theorem inputhook_qt4_reenables_sigint_returns_0_witness:
  "(\<exists>N. (\<forall>i\<ge>N. ready env_win32_ready_later i) \<and> N - clock world0 < 8) \<and>
   inputhook_qt4 8 env_win32_ready_later 3 0 world0 \<noteq> None \<and>
   (\<exists>w'. inputhook_qt4 8 env_win32_ready_later 3 0 world0 = Some (Inr 0, w') \<and>
      sigint_allowed w' \<and> last (calls w') = Did Call_allow_CTRL_C)"
proof -
  have p: "\<exists>N. (\<forall>i\<ge>N. ready env_win32_ready_later i) \<and> N - clock world0 < 8"
    by (rule exI[of _ 7]) (simp add: env_win32_ready_later_def world0_def)
  from inputhook_qt4_reenables_sigint_returns_0[of 8 env_win32_ready_later 3 0 world0] p
  show ?thesis by blast
qed

text \<open>
  C3. The restoration callback: when the interrupt-pending flag is set, it registers the
  idle callback with the manager again and leaves the flag cleared; when the flag is
  clear, it changes nothing at all. So a second run right after the first is a no-op.
\<close>

theorem preprompthook_qt4_restores_once:
  "(flags w c \<longrightarrow>
      pyos_inputhook (preprompthook_qt4 m c w) m = Some (Inputhook_qt4 m c) \<and>
      \<not> flags (preprompthook_qt4 m c w) c \<and>
      calls (preprompthook_qt4 m c w) = calls w @ [Did (Call_set_inputhook m (Inputhook_qt4 m c))]) \<and>
   (\<not> flags w c \<longrightarrow> preprompthook_qt4 m c w = w) \<and>
   preprompthook_qt4 m c (preprompthook_qt4 m c w) = preprompthook_qt4 m c w"
proof -
  have "(flags w)(c := False) = flags w" if "\<not> flags w c"
    using that by (intro fun_upd_idem) simp
  then show ?thesis by (simp add: preprompthook_qt4_def prim_defs)
qed

theorem preprompthook_qt4_restores_once_witness:
  "flags world_pending 0 \<and>
   pyos_inputhook (preprompthook_qt4 3 0 world_pending) 3 = Some (Inputhook_qt4 3 0) \<and>
   \<not> flags (preprompthook_qt4 3 0 world_pending) 0 \<and>
   \<not> flags world0 0 \<and> preprompthook_qt4 3 0 world0 = world0"
  using preprompthook_qt4_restores_once[of world_pending 0 3]
    preprompthook_qt4_restores_once[of world0 0 3]
  by (simp add: world_pending_def world0_def)

text \<open>
  C4, as stated. Two installs on the same shell return the same pair \<open>(app, hook)\<close>. This
  fails when the Qt application goes away between two installs that are given none: the
  first constructs application 0, the second finds no instance and constructs
  application 1. The hook is the same.
\<close>

theorem create_inputhook_qt4_pair_differs:
  "fst (create_inputhook_qt4 3 None world_no_app) = (0, Inputhook_qt4 3 0) \<and>
   run [App_destroyed] ([], snd (create_inputhook_qt4 3 None world_no_app)) \<noteq> None \<and>
   fst (create_inputhook_qt4 3 None
     (snd (the (run [App_destroyed] ([], snd (create_inputhook_qt4 3 None world_no_app)))))) =
     (1, Inputhook_qt4 3 0)"
  by (simp add: create_inputhook_qt4_def resolve_app_def QApplication_def Let_def
        set_hook_pre_prompt_def world_no_app_def world0_def)

text \<open>
  C4, amended. Between two installs on the same shell let there be any sequence of
  events: further installs, registrations, idle callbacks, prompts, clears, and the Qt
  application destroyed or constructed by other code. The second install returns the hook
  of the first and creates nothing: no new flag, no new restoration callback. The
  application it returns is the one it was given, or else the instance Qt has at that
  moment. So the pairs are identical when both installs were given the same application,
  and when both were given none and the instance that the first returned is still the
  instance at the second, as it is when no event in between destroys or constructs an
  application.
\<close>

theorem create_inputhook_qt4_same_hook:
  assumes "create_inputhook_qt4 m1 app1 w = ((a1, h1), w1)"
    and "run evs (j, w1) = Some (j', w2)"
    and "create_inputhook_qt4 m2 app2 w2 = ((a2, h2), w3)"
  shows "h2 = h1 \<and> next_cell w3 = next_cell w2 \<and> pre_prompt_hooks w3 = pre_prompt_hooks w2 \<and>
         ip_inputhook_qt4 w3 = Some h1 \<and>
         (\<forall>x. app2 = Some x \<longrightarrow> a2 = x) \<and>
         (\<forall>x. app2 = None \<and> qapp_instance w2 = Some x \<longrightarrow> a2 = x) \<and>
         (app2 = app1 \<and>
          (app1 = None \<longrightarrow>
             qapp_instance w2 = Some a1 \<or> (\<forall>e\<in>set evs. \<not> changes_instance e)) \<longrightarrow>
          a2 = a1)"
proof -
  from create_installs[OF assms(1)] have i1: "installed h1 w1"
    and q1: "app1 = None \<longrightarrow> qapp_instance w1 = Some a1" and g1: "\<forall>x. app1 = Some x \<longrightarrow> a1 = x"
    by blast+
  from run_installed[OF assms(2), of h1 a1] i1 q1 have i2: "installed h1 w2"
    and q2: "app1 = None \<longrightarrow> (\<forall>e\<in>set evs. \<not> changes_instance e) \<longrightarrow> qapp_instance w2 = Some a1"
    by blast+
  from create_installed[OF i2 assms(3)] have h: "h2 = h1" "installed h1 w3"
    "next_cell w3 = next_cell w2" "pre_prompt_hooks w3 = pre_prompt_hooks w2" by blast+
  from create_installs[OF assms(3)] have g2: "\<forall>x. app2 = Some x \<longrightarrow> a2 = x" by blast
  have g3: "a2 = x" if "app2 = None" "qapp_instance w2 = Some x" for x
    using that assms(3)
    by (auto simp: create_inputhook_qt4_def resolve_app_def Let_def split: option.splits prod.splits)
  have "a2 = a1" if "app2 = app1"
    and "app1 = None \<longrightarrow> qapp_instance w2 = Some a1 \<or> (\<forall>e\<in>set evs. \<not> changes_instance e)"
  proof (cases app1)
    case None
    with q2 that(2) have "qapp_instance w2 = Some a1" by blast
    with None that(1) show ?thesis by (simp add: g3)
  next
    case (Some x)
    with g1 g2 that(1) show ?thesis by simp
  qed
  with h g2 g3 show ?thesis by (simp add: installed_def)
qed

theorem create_inputhook_qt4_same_hook_witness:
  "create_inputhook_qt4 3 None world_no_app =
     ((0, Inputhook_qt4 3 0), snd (create_inputhook_qt4 3 None world_no_app)) \<and>
   run [Register 3, Idle 3 0 env_interrupt_in_exec, Prompt]
     ([], snd (create_inputhook_qt4 3 None world_no_app)) \<noteq> None \<and>
   \<not> changes_instance (Register 3) \<and>
   \<not> changes_instance (Idle 3 0 env_interrupt_in_exec) \<and>
   \<not> changes_instance Prompt \<and>
   fst (create_inputhook_qt4 4 None
     (snd (the (run [Register 3, Idle 3 0 env_interrupt_in_exec, Prompt]
        ([], snd (create_inputhook_qt4 3 None world_no_app)))))) = (0, Inputhook_qt4 3 0)"
proof -
  let ?w1 = "snd (create_inputhook_qt4 3 None world_no_app)"
  let ?evs = "[Register 3, Idle 3 0 env_interrupt_in_exec, Prompt]"
  let ?s2 = "the (run ?evs ([], ?w1))"
  let ?r3 = "create_inputhook_qt4 4 None (snd ?s2)"
  have c1: "create_inputhook_qt4 3 None world_no_app = ((0, Inputhook_qt4 3 0), ?w1)"
    by (simp add: create_inputhook_qt4_def resolve_app_def QApplication_def Let_def
          set_hook_pre_prompt_def world_no_app_def world0_def)
  have r: "run ?evs ([], ?w1) \<noteq> None"
    by (simp add: create_inputhook_qt4_def resolve_app_def QApplication_def Let_def
          set_hook_pre_prompt_def world_no_app_def world0_def run_defs interrupted_def
          preprompthook_qt4_def env_interrupt_in_exec_def)
  then have r2: "run ?evs ([], ?w1) = Some (fst ?s2, snd ?s2)" by auto
  have c3: "?r3 = ((fst (fst ?r3), snd (fst ?r3)), snd ?r3)" by simp
  have q: "\<forall>e\<in>set ?evs. \<not> changes_instance e" by simp
  from create_inputhook_qt4_same_hook[OF c1 r2 c3] q
  have "snd (fst ?r3) = Inputhook_qt4 3 0" "fst (fst ?r3) = 0" by blast+
  with c1 r q show ?thesis by (simp add: prod_eq_iff)
qed

text \<open>
  C5, as stated. The timer or notifier connected to \<open>quit\<close> is disconnected before the
  callback returns, on every exit path. This fails when the interrupt arrives while the
  event loop runs: the callback returns with the notifier still connected, and the log
  shows the call of \<open>connect\<close> and no call of \<open>disconnect\<close>.
\<close>

theorem inputhook_qt4_interrupt_leaves_connection:
  "inputhook_qt4 0 env_interrupt_in_exec 3 0 world0 \<noteq> None \<and>
   fst (the (inputhook_qt4 0 env_interrupt_in_exec 3 0 world0)) = Inr 0 \<and>
   quit_connections world0 = {} \<and>
   quit_connections (snd (the (inputhook_qt4 0 env_interrupt_in_exec 3 0 world0))) =
     {(QSocketNotifier 0, 0)} \<and>
   calls (snd (the (inputhook_qt4 0 env_interrupt_in_exec 3 0 world0))) =
     [Did Call_allow_CTRL_C, Did Call_instance, Did (Call_processEvents 0 300), Did Call_stdin_ready,
      Did (Call_QSocketNotifier 0), Did (Call_connect (QSocketNotifier 0) 0),
      Threw (Call_exec 0) KeyboardInterrupt, Did Call_ignore_CTRL_C,
      Did (Call_print kbdint_notice), Did (Call_clear_inputhook 3), Did Call_allow_CTRL_C]"
  by (simp add: run_defs env_interrupt_in_exec_def world0_def)

text \<open>
  C5, amended. When the \<open>try\<close> block completes without raising, under either wait
  strategy, nothing that this invocation connected to \<open>quit\<close> is connected when the
  callback returns, and no other connection has changed.
\<close>

theorem inputhook_qt4_disconnects_on_completion:
  assumes "try_body fuel E w = Some (Inr v, w1)"
  shows "\<exists>w' xs. inputhook_qt4 fuel E m got_kbdint w = Some (Inr 0, w') \<and>
           calls w' = calls w @ xs \<and> quit_connections w' = quit_connections w - wired xs"
proof -
  from try_body_wiring[OF assms] obtain xs where
    xs: "calls w1 = calls w @ xs" "quit_connections w1 = quit_connections w - wired xs" by blast
  have "wired (xs @ [Did Call_allow_CTRL_C]) = wired xs" by (simp add: wired_def)
  with xs assms try_body_status[of fuel E w _ w1] show ?thesis
    by (cases v) (auto simp: inputhook_qt4_def allow_CTRL_C_def)
qed

theorem inputhook_qt4_disconnects_on_completion_witness:
  "fst (the (try_body 8 env_win32_ready_later world0)) = Inr None \<and>
   (\<exists>w' xs. inputhook_qt4 8 env_win32_ready_later 3 0 world0 = Some (Inr 0, w') \<and>
           calls w' = calls world0 @ xs \<and> quit_connections w' = quit_connections world0 - wired xs)"
proof -
  have h: "try_body 8 env_win32_ready_later world0 =
      Some (Inr None, snd (the (try_body 8 env_win32_ready_later world0)))"
    by (simp add: run_defs env_win32_ready_later_def world0_def eval_nat_numeral)
  have f: "fst (the (try_body 8 env_win32_ready_later world0)) = Inr None"
    by (simp add: run_defs env_win32_ready_later_def world0_def eval_nat_numeral)
  from inputhook_qt4_disconnects_on_completion[OF h, of 3 0] f show ?thesis by blast
qed

text \<open>
  C7. In every world the system reaches from an initial one, the interrupt-pending flag
  of the installed pair of callbacks is true exactly when an interrupt has been caught by
  the idle callback and no prompt has been displayed since. So it is true only in that
  interval, and nothing but the two callbacks changes it.
\<close>

theorem got_kbdint_true_only_in_interval:
  assumes "initial w0" and "run evs ([], w0) = Some (journal, w)"
    and "ip_inputhook_qt4 w = Some (Inputhook_qt4 m c)"
  shows "flags w c = in_interval journal"
proof -
  from assms(1) have "consistent (in_interval []) w0"
    by (simp add: initial_def consistent_def in_interval_def)
  with assms(2) have "consistent (in_interval journal) w" by (rule run_consistent)
  with assms(3) show ?thesis by (simp add: consistent_def)
qed

theorem got_kbdint_true_only_in_interval_witness:
  "initial world0 \<and>
   run [Install 3 None, Register 3, Idle 3 0 env_interrupt_in_exec] ([], world0) \<noteq> None \<and>
   ip_inputhook_qt4 (snd (the (run [Install 3 None, Register 3, Idle 3 0 env_interrupt_in_exec]
      ([], world0)))) = Some (Inputhook_qt4 3 0) \<and>
   flags (snd (the (run [Install 3 None, Register 3, Idle 3 0 env_interrupt_in_exec]
      ([], world0)))) 0 \<and>
   in_interval (fst (the (run [Install 3 None, Register 3, Idle 3 0 env_interrupt_in_exec]
      ([], world0))))"
proof -
  let ?evs = "[Install 3 None, Register 3, Idle 3 0 env_interrupt_in_exec]"
  let ?s = "the (run ?evs ([], world0))"
  have i: "initial world0" by (simp add: initial_def world0_def)
  have r: "run ?evs ([], world0) \<noteq> None"
    by (simp add: create_inputhook_qt4_def resolve_app_def QApplication_def Let_def
          set_hook_pre_prompt_def world0_def run_defs interrupted_def env_interrupt_in_exec_def)
  then have r2: "run ?evs ([], world0) = Some (fst ?s, snd ?s)" by auto
  have h: "ip_inputhook_qt4 (snd ?s) = Some (Inputhook_qt4 3 0)"
    by (simp add: create_inputhook_qt4_def resolve_app_def QApplication_def Let_def
          set_hook_pre_prompt_def world0_def run_defs interrupted_def env_interrupt_in_exec_def)
  have j: "in_interval (fst ?s)"
    by (simp add: create_inputhook_qt4_def resolve_app_def QApplication_def Let_def
          set_hook_pre_prompt_def world0_def run_defs interrupted_def env_interrupt_in_exec_def
          in_interval_def)
  from got_kbdint_true_only_in_interval[OF i r2 h] i r h j show ?thesis by simp
qed

text \<open>
  C8. An install that is given no application: when Qt has no application instance, it
  constructs exactly one and returns it; when Qt has one, it returns that one and
  constructs none.
\<close>

theorem create_inputhook_qt4_one_application:
  assumes "create_inputhook_qt4 m None w = ((a, h), w')"
  shows "(qapp_instance w = None \<longrightarrow>
            apps_constructed w' = apps_constructed w @ [a] \<and> qapp_instance w' = Some a) \<and>
         (\<forall>a0. qapp_instance w = Some a0 \<longrightarrow>
            a = a0 \<and> apps_constructed w' = apps_constructed w \<and> qapp_instance w' = Some a0)"
  using assms
  by (auto simp: create_inputhook_qt4_def resolve_app_def QApplication_def set_hook_pre_prompt_def
        Let_def split: option.splits)

theorem create_inputhook_qt4_one_application_witness:
  "qapp_instance world_no_app = None \<and>
   apps_constructed (snd (create_inputhook_qt4 3 None world_no_app)) =
     apps_constructed world_no_app @ [0] \<and>
   qapp_instance world0 = Some 0 \<and>
   fst (fst (create_inputhook_qt4 3 None world0)) = 0 \<and>
   apps_constructed (snd (create_inputhook_qt4 3 None world0)) = apps_constructed world0"
proof -
  have a: "create_inputhook_qt4 3 None world_no_app =
      ((0, Inputhook_qt4 3 0), snd (create_inputhook_qt4 3 None world_no_app))"
    by (simp add: create_inputhook_qt4_def resolve_app_def QApplication_def Let_def
          set_hook_pre_prompt_def world_no_app_def world0_def)
  have b: "create_inputhook_qt4 3 None world0 =
      ((0, Inputhook_qt4 3 0), snd (create_inputhook_qt4 3 None world0))"
    by (simp add: create_inputhook_qt4_def resolve_app_def QApplication_def Let_def
          set_hook_pre_prompt_def world0_def)
  have n: "qapp_instance world_no_app = None" "qapp_instance world0 = Some 0"
    by (simp_all add: world_no_app_def world0_def)
  have f: "fst (fst (create_inputhook_qt4 3 None world0)) = 0"
    by (simp add: create_inputhook_qt4_def resolve_app_def Let_def set_hook_pre_prompt_def
          world0_def)
  from create_inputhook_qt4_one_application[OF a] create_inputhook_qt4_one_application[OF b] n f
  show ?thesis by simp
qed




text \<open>
  C10. The closure returned by \<open>predicated_path_hook\<close> raises \<open>ImportError\<close> exactly
  when the path is not a directory or fails the predicate, and otherwise returns the
  finder constructed for that path: no finder for a path that fails the predicate.
\<close>

theorem predicated_path_hook_raises_iff:
  "((\<exists>msg. predicated_path_hook cls pred loader_details isdir path = Inl (ImportError msg path)) \<longleftrightarrow>
      \<not> isdir path \<or> \<not> pred path) \<and>
   (isdir path \<and> pred path \<longrightarrow>
      predicated_path_hook cls pred loader_details isdir path = Inr (cls path loader_details)) \<and>
   (predicated_path_hook cls pred loader_details isdir path = Inr f \<longrightarrow>
      isdir path \<and> pred path \<and> f = cls path loader_details) \<and>
   (predicated_path_hook cls pred loader_details isdir path = Inl err \<longrightarrow>
      (\<exists>msg. err = ImportError msg path))"
  by (auto simp: predicated_path_hook_def)

theorem predicated_path_hook_raises_iff_witness:
  "isdir_example ''/src/ipython/IPython'' \<and> predicate ''/src/ipython'' id ''/src/ipython/IPython'' \<and>
   predicated_path_hook Auto2to3FileFinder (predicate ''/src/ipython'' id) (0::nat) isdir_example
     ''/src/ipython/IPython'' = Inr (Auto2to3FileFinder ''/src/ipython/IPython'' 0) \<and>
   isdir_example ''/usr/lib'' \<and> \<not> predicate ''/src/ipython'' id ''/usr/lib'' \<and>
   (\<exists>msg. predicated_path_hook Auto2to3FileFinder (predicate ''/src/ipython'' id) (0::nat)
      isdir_example ''/usr/lib'' = Inl (ImportError msg ''/usr/lib'')) \<and>
   \<not> isdir_example ''/src/ipython/setup.py'' \<and>
   (\<exists>msg. predicated_path_hook Auto2to3FileFinder (predicate ''/src/ipython'' id) (0::nat)
      isdir_example ''/src/ipython/setup.py'' = Inl (ImportError msg ''/src/ipython/setup.py''))"
proof -
  have d1: "isdir_example ''/src/ipython/IPython''" by (simp add: isdir_example_def)
  have p1: "predicate ''/src/ipython'' id ''/src/ipython/IPython''" by (simp add: predicate_def)
  have d2: "isdir_example ''/usr/lib''" by (simp add: isdir_example_def)
  have p2: "\<not> predicate ''/src/ipython'' id ''/usr/lib''" by (simp add: predicate_def)
  have d3: "\<not> isdir_example ''/src/ipython/setup.py''" by (simp add: isdir_example_def)
  from predicated_path_hook_raises_iff[of Auto2to3FileFinder "predicate ''/src/ipython'' id" "0::nat"
      isdir_example "''/src/ipython/IPython''"]
    predicated_path_hook_raises_iff[of Auto2to3FileFinder "predicate ''/src/ipython'' id" "0::nat"
      isdir_example "''/usr/lib''"]
    predicated_path_hook_raises_iff[of Auto2to3FileFinder "predicate ''/src/ipython'' id" "0::nat"
      isdir_example "''/src/ipython/setup.py''"]
    d1 p1 d2 p2 d3
  show ?thesis by blast
qed

end
